theory Spec2Isabelle
  imports Main "HOL-Library.Word" "HOL-Library.Sublist"
begin

section \<open>Strings of the host language\<close>

text \<open>
  A string of page.tsx is a sequence of UTF-16 code units. \<open>length\<close> counts code units,
  as the \<open>maxLength\<close> attribute of the input element and the regular expression of the
  file name (which has no \<open>u\<close> flag) both do.
\<close>

type_synonym jsstring = "16 word list"

definition utf16 :: "string \<Rightarrow> jsstring" where
  "utf16 s = map of_char s"

text \<open>
  \<open>String.prototype.trim\<close> is a built-in of the language, not code of the repository.
  It removes the code units of the productions WhiteSpace and LineTerminator of ECMAScript
  from both ends: TAB, LF, VT, FF, CR, SP, NBSP, U+1680, U+2000 to U+200A, U+2028, U+2029,
  U+202F, U+205F, U+3000 and U+FEFF.
\<close>

definition isWhiteSpace :: "16 word \<Rightarrow> bool" where
  "isWhiteSpace c =
     (c \<in> set [0x0009, 0x000A, 0x000B, 0x000C, 0x000D, 0x0020, 0x00A0, 0x1680,
                0x2028, 0x2029, 0x202F, 0x205F, 0x3000, 0xFEFF]
      \<or> (0x2000 \<le> c \<and> c \<le> 0x200A))"

definition trimStart :: "jsstring \<Rightarrow> jsstring" where
  "trimStart s = dropWhile isWhiteSpace s"

definition trimEnd :: "jsstring \<Rightarrow> jsstring" where
  "trimEnd s = rev (dropWhile isWhiteSpace (rev s))"

definition trim :: "jsstring \<Rightarrow> jsstring" where
  "trim s = trimEnd (trimStart s)"

text \<open>\<open>String.prototype.startsWith\<close> and \<open>String.prototype.includes\<close> (here \<open>includes_str\<close>), both case sensitive.\<close>

definition startsWith :: "jsstring \<Rightarrow> jsstring \<Rightarrow> bool" where
  "startsWith s p = (take (length p) s = p)"

fun includes_str :: "jsstring \<Rightarrow> jsstring \<Rightarrow> bool" where
  "includes_str [] sub = (sub = [])"
| "includes_str (c # cs) sub = (startsWith (c # cs) sub \<or> includes_str cs sub)"

text \<open>Truthiness of a string and of a \<open>string | null\<close> value: the empty string and null are falsy.\<close>

definition truthy :: "jsstring \<Rightarrow> bool" where
  "truthy s = (s \<noteq> [])"

definition truthy_opt :: "jsstring option \<Rightarrow> bool" where
  "truthy_opt v = (case v of None \<Rightarrow> False | Some s \<Rightarrow> truthy s)"


section \<open>The state of OctrafiedApp\<close>

text \<open>
  The four \<open>useState\<close> cells of OctrafiedApp (page.tsx, lines 45 to 48). The cell \<open>image\<close>
  is the field \<open>image_st\<close>, since \<open>image\<close> is a constant of HOL.
\<close>

record app_state =
  username :: jsstring
  image_st :: "jsstring option"
  submitted :: bool
  isDownloading :: bool

definition initial_state :: app_state where
  "initial_state = \<lparr> username = [], image_st = None, submitted = False, isDownloading = False \<rparr>"

section \<open>The 2D canvas of the host\<close>

text \<open>
  The canvas is an object of the browser. What follows is the part of its drawing model
  that \<open>downloadPfp\<close> uses, after the HTML standard: a context has a drawing state (clip
  region, stroke style, line width), a stack of saved drawing states, and a current path
  that \<open>save\<close> and \<open>restore\<close> do not touch. \<open>clip\<close> intersects the clip region with the
  current path; \<open>drawImage\<close>, \<open>stroke\<close> and \<open>clearRect\<close> paint under the clip region of
  the moment. Pixels are not modelled: a surface is the list of what was painted on it.
\<close>

text \<open>The two angles of the source: the literal \<open>0\<close> and \<open>2 * Math.PI\<close>.\<close>

datatype angle = Angle0 | TwoMathPI

datatype segment = ArcSeg int int int angle angle

type_synonym path = "segment list"

datatype image_element =
  ImageElement (src: jsstring) (naturalWidth: nat) (naturalHeight: nat)

datatype canvas_call =
    ClearRect int int int int
  | Save
  | BeginPath
  | Arc int int int angle angle
  | Clip
  | DrawImage image_element int int int int
  | Restore
  | SetStrokeStyle jsstring
  | SetLineWidth int
  | Stroke

text \<open>A clip region is the list of the paths it was intersected with; \<open>[]\<close> is the whole surface.\<close>

record drawing_state =
  clip_region :: "path list"
  strokeStyle :: jsstring
  lineWidth :: int

datatype paint =
    Cleared int int int int
  | ImagePainted image_element int int int int "path list"
  | Stroked path jsstring int "path list"

record context2d =
  cur :: drawing_state
  cur_path :: path
  saved :: "drawing_state list"
  painted :: "paint list"

definition fresh_context :: context2d where
  "fresh_context =
     \<lparr> cur = \<lparr> clip_region = [], strokeStyle = utf16 ''#000000'', lineWidth = 1 \<rparr>,
       cur_path = [], saved = [], painted = [] \<rparr>"

fun exec_call :: "canvas_call \<Rightarrow> context2d \<Rightarrow> context2d" where
  "exec_call (ClearRect x y w h) c = c\<lparr> painted := painted c @ [Cleared x y w h] \<rparr>"
| "exec_call Save c = c\<lparr> saved := cur c # saved c \<rparr>"
| "exec_call BeginPath c = c\<lparr> cur_path := [] \<rparr>"
| "exec_call (Arc x y r a0 a1) c = c\<lparr> cur_path := cur_path c @ [ArcSeg x y r a0 a1] \<rparr>"
| "exec_call Clip c = c\<lparr> cur := (cur c)\<lparr> clip_region := clip_region (cur c) @ [cur_path c] \<rparr> \<rparr>"
| "exec_call (DrawImage img dx dy dw dh) c =
     c\<lparr> painted := painted c @ [ImagePainted img dx dy dw dh (clip_region (cur c))] \<rparr>"
| "exec_call Restore c =
     (case saved c of [] \<Rightarrow> c | d # ds \<Rightarrow> c\<lparr> cur := d, saved := ds \<rparr>)"
| "exec_call (SetStrokeStyle col) c = c\<lparr> cur := (cur c)\<lparr> strokeStyle := col \<rparr> \<rparr>"
| "exec_call (SetLineWidth w) c = c\<lparr> cur := (cur c)\<lparr> lineWidth := w \<rparr> \<rparr>"
| "exec_call Stroke c =
     c\<lparr> painted := painted c @
          [Stroked (cur_path c) (strokeStyle (cur c)) (lineWidth (cur c)) (clip_region (cur c))] \<rparr>"

text \<open>
  A canvas element: its size and its context. A new canvas is 300 by 150; assigning
  \<open>width\<close> or \<open>height\<close> clears the surface and resets the context.
\<close>

record canvas =
  canvas_width :: nat
  canvas_height :: nat
  ctx :: context2d

definition createCanvas :: canvas where
  "createCanvas = \<lparr> canvas_width = 300, canvas_height = 150, ctx = fresh_context \<rparr>"

definition set_width :: "nat \<Rightarrow> canvas \<Rightarrow> canvas" where
  "set_width w cv = cv\<lparr> canvas_width := w, ctx := fresh_context \<rparr>"

definition set_height :: "nat \<Rightarrow> canvas \<Rightarrow> canvas" where
  "set_height h cv = cv\<lparr> canvas_height := h, ctx := fresh_context \<rparr>"

text \<open>\<open>toDataURL("image/png", 1.0)\<close>: the surface at the size of the canvas.\<close>

datatype png = Png (png_width: nat) (png_height: nat) (png_surface: "paint list")

definition toDataURL :: "canvas \<Rightarrow> png" where
  "toDataURL cv = Png (canvas_width cv) (canvas_height cv) (painted (ctx cv))"


section \<open>Effects and exceptions\<close>

record file_obj =
  file_type :: jsstring
  file_bytes :: "8 word list"

text \<open>What a handler does to the world outside the four cells, in the order it does it.\<close>

datatype effect =
    Alert jsstring
  | ConsoleError jsstring
  | SetIsDownloading bool
  | ReadAsDataURL file_obj
  | SaveFile jsstring png

text \<open>An \<open>Error\<close> the source constructs itself, or an exception thrown by a call of the host.\<close>

datatype exn = Error jsstring | HostException

text \<open>The setters, as React applies them.\<close>

definition setUsername :: "jsstring \<Rightarrow> app_state \<Rightarrow> app_state" where
  "setUsername v s = s\<lparr> username := v \<rparr>"

definition setImage :: "jsstring option \<Rightarrow> app_state \<Rightarrow> app_state" where
  "setImage v s = s\<lparr> image_st := v \<rparr>"

definition setSubmitted :: "bool \<Rightarrow> app_state \<Rightarrow> app_state" where
  "setSubmitted b s = s\<lparr> submitted := b \<rparr>"

definition setIsDownloading :: "bool \<Rightarrow> app_state \<Rightarrow> app_state" where
  "setIsDownloading b s = s\<lparr> isDownloading := b \<rparr>"

text \<open>
  The \<open>onChange\<close> of the username input (line 197): \<open>setUsername(e.target.value)\<close>. It
  raises nothing and alerts nothing.
\<close>

definition username_onChange :: "jsstring \<Rightarrow> app_state \<Rightarrow> effect list \<times> app_state" where
  "username_onChange v s = ([], setUsername v s)"

text \<open>
  \<open>handleSubmit\<close> (lines 76 to 88). Nothing in its \<open>try\<close> block can throw, so the
  \<open>catch\<close> branch has no counterpart.
\<close>

definition handleSubmit :: "app_state \<Rightarrow> app_state" where
  "handleSubmit s =
     (if truthy (trim (username s)) \<and> truthy_opt (image_st s)
      then setSubmitted True s
      else s)"

text \<open>\<open>handleReset\<close> (lines 90 to 99): four setters in the order of the source.\<close>

definition handleReset :: "app_state \<Rightarrow> app_state" where
  "handleReset s =
     setIsDownloading False (setImage None (setUsername [] (setSubmitted False s)))"


section \<open>Image upload\<close>

text \<open>
  \<open>handleImageUpload\<close> (lines 50 to 74), up to the point where it returns. The argument is
  \<open>e.target.files?.[0]\<close>. The flag says whether starting the reader throws, which is what
  the \<open>catch\<close> branch of the source is for. The handler itself never writes a cell: only
  \<open>reader.onload\<close> does, later.
\<close>

definition handleImageUpload ::
  "bool \<Rightarrow> file_obj option \<Rightarrow> app_state \<Rightarrow> effect list \<times> app_state" where
  "handleImageUpload reader_throws fo s =
     (case fo of
        None \<Rightarrow> ([], s)
      | Some f \<Rightarrow>
          if \<not> startsWith (file_type f) (utf16 ''image/'')
          then ([Alert (utf16 ''Please select a valid image file'')], s)
          else if reader_throws
          then ([ConsoleError (utf16 ''Image upload error:''),
                 Alert (utf16 ''Failed to upload image'')], s)
          else ([ReadAsDataURL f], s))"

text \<open>\<open>reader.onload\<close> (lines 60 to 64) and \<open>reader.onerror\<close> (lines 65 to 67).\<close>

definition reader_onload :: "jsstring option \<Rightarrow> app_state \<Rightarrow> app_state" where
  "reader_onload result s = (if truthy_opt result then setImage result s else s)"

definition reader_onerror :: "app_state \<Rightarrow> effect list \<times> app_state" where
  "reader_onerror s = ([Alert (utf16 ''Error reading file'')], s)"


section \<open>Export\<close>

text \<open>
  The file name (line 164): \<open>username.replace(/[^a-zA-Z0-9]/g, "_")\<close> inside a template
  literal. A global replace with a one-character class scans the code units from the left
  and puts the replacement wherever the class matches.
\<close>

definition alnum :: "16 word \<Rightarrow> bool" where
  "alnum c = ((0x61 \<le> c \<and> c \<le> 0x7A) \<or> (0x41 \<le> c \<and> c \<le> 0x5A) \<or> (0x30 \<le> c \<and> c \<le> 0x39))"

fun replace_all :: "(16 word \<Rightarrow> bool) \<Rightarrow> jsstring \<Rightarrow> jsstring \<Rightarrow> jsstring" where
  "replace_all cls rep [] = []"
| "replace_all cls rep (c # cs) =
     (if cls c then rep @ replace_all cls rep cs else c # replace_all cls rep cs)"

definition fileName :: "jsstring \<Rightarrow> jsstring" where
  "fileName u = replace_all (\<lambda>c. \<not> alnum c) (utf16 ''_'') u @ utf16 ''-octrafied-pfp.png''"

text \<open>
  What the browser decides during one export: whether \<open>getContext\<close> returns a context,
  whether the image loads (and then with which natural size) or fires \<open>onerror\<close>, which
  canvas call of the \<open>onload\<close> handler throws, if any (counted from 0), and whether
  \<open>toDataURL\<close> throws.
\<close>

record host =
  context_available :: bool
  image_load :: "(nat \<times> nat) option"
  draw_fault :: "nat option"
  serialize_throws :: bool

text \<open>The canvas calls of \<open>imageElement.onload\<close> (lines 129 to 147), in the order of the source.\<close>

definition onload_calls :: "image_element \<Rightarrow> canvas_call list" where
  "onload_calls img =
     [Save,
      BeginPath, Arc 100 100 90 Angle0 TwoMathPI, Clip,
      DrawImage img 10 10 180 180,
      Restore,
      SetStrokeStyle (utf16 ''#0d0bda''), SetLineWidth 6,
      BeginPath, Arc 100 100 90 Angle0 TwoMathPI, Stroke]"

text \<open>Running calls until one throws: the \<open>try\<close> of lines 127 to 152 turns that into \<open>reject\<close>.\<close>

fun run_calls :: "nat option \<Rightarrow> canvas_call list \<Rightarrow> context2d \<Rightarrow> exn + context2d" where
  "run_calls fault [] c = Inr c"
| "run_calls fault (x # xs) c =
     (if fault = Some 0 then Inl HostException
      else run_calls (map_option (\<lambda>k. k - 1) fault) xs (exec_call x c))"

text \<open>The promise \<open>processImage\<close> (lines 125 to 158): \<open>Inl\<close> is a rejection.\<close>

definition processImage :: "host \<Rightarrow> jsstring \<Rightarrow> context2d \<Rightarrow> exn + context2d" where
  "processImage h image_url c =
     (case image_load h of
        None \<Rightarrow> Inl (Error (utf16 ''Failed to load image''))
      | Some (w, ht) \<Rightarrow> run_calls (draw_fault h) (onload_calls (ImageElement image_url w ht)) c)"

text \<open>The \<open>try\<close> block of \<open>downloadPfp\<close> (lines 106 to 172) on the captured image and username.\<close>

definition download_try :: "host \<Rightarrow> jsstring \<Rightarrow> jsstring \<Rightarrow> effect list \<times> (exn + unit)" where
  "download_try h image_url uname =
     (let canvasElement = createCanvas in
      if \<not> context_available h
      then ([], Inl (Error (utf16 ''Canvas context not available'')))
      else
        let cv1 = set_height 200 (set_width 200 canvasElement);
            cv2 = cv1\<lparr> ctx := exec_call (ClearRect 0 0 200 200) (ctx cv1) \<rparr>
        in case processImage h image_url (ctx cv2) of
             Inl e \<Rightarrow> ([], Inl e)
           | Inr c \<Rightarrow>
               if serialize_throws h then ([], Inl HostException)
               else ([SaveFile (fileName uname) (toDataURL (cv2\<lparr> ctx := c \<rparr>))], Inr ()))"

text \<open>The \<open>catch\<close> block (lines 173 to 175).\<close>

definition download_catch :: "exn + unit \<Rightarrow> effect list" where
  "download_catch r =
     (case r of
        Inl e \<Rightarrow> [ConsoleError (utf16 ''Download failed:''),
                  Alert (utf16 ''Failed to download PFP. Please try again.'')]
      | Inr u \<Rightarrow> [])"

text \<open>
  \<open>downloadPfp\<close> (lines 101 to 179) from the click to the end of \<open>finally\<close>, when no other
  handler runs while the promise is pending.
\<close>

definition downloadPfp :: "host \<Rightarrow> app_state \<Rightarrow> effect list \<times> app_state" where
  "downloadPfp h s =
     (case image_st s of
        None \<Rightarrow> ([], s)
      | Some image_url \<Rightarrow>
          if \<not> truthy image_url \<or> \<not> truthy (trim (username s)) then ([], s)
          else
            let s1 = setIsDownloading True s;
                (tr, r) = download_try h image_url (username s)
            in ([SetIsDownloading True] @ tr @ download_catch r @ [SetIsDownloading False],
                setIsDownloading False s1))"

text \<open>
  The same function in the two turns of the event loop it takes. The first turn runs to
  the \<open>await\<close>, or to the end when the guard returns or the context is missing (the throw
  of line 112 comes before the \<open>await\<close>); the flag says whether the export is left pending.
  The second turn runs when the promise has settled: on the state of that moment, it
  ends with the \<open>finally\<close> block.
\<close>

definition downloadPfp_start :: "host \<Rightarrow> app_state \<Rightarrow> app_state \<times> bool" where
  "downloadPfp_start h s =
     (if \<not> truthy_opt (image_st s) \<or> \<not> truthy (trim (username s)) then (s, False)
      else if \<not> context_available h then (setIsDownloading False (setIsDownloading True s), False)
      else (setIsDownloading True s, True))"

definition downloadPfp_resume :: "app_state \<Rightarrow> app_state" where
  "downloadPfp_resume s = setIsDownloading False s"


section \<open>The error boundary\<close>

text \<open>
  \<open>handleError\<close> (lines 11 to 18) on the message of the error event and the cell
  \<open>hasError\<close>; the button of the fallback (line 31); what the boundary renders (lines 24 to 41).
\<close>

definition handleError :: "jsstring \<Rightarrow> bool \<Rightarrow> effect list \<times> bool" where
  "handleError message hasError =
     (if includes_str message (utf16 ''sender'') \<or> includes_str message (utf16 ''wallet'')
      then ([], hasError)
      else ([ConsoleError (utf16 ''App error:'')], True))"

definition tryAgain_onClick :: "bool \<Rightarrow> bool" where
  "tryAgain_onClick hasError = False"

datatype boundary_view = Fallback | Children

definition render_boundary :: "bool \<Rightarrow> boundary_view" where
  "render_boundary hasError = (if hasError then Fallback else Children)"


section \<open>What is on the page, and the transition system\<close>

text \<open>
  The JSX of OctrafiedApp (lines 183 to 259): the form, with its submit button disabled
  or not, while \<open>submitted\<close> is false; the preview, with its download button disabled or
  not, otherwise. The inputs exist only in the form, the two buttons only in the preview.
\<close>

datatype view = EditingForm bool | PreviewCard bool

definition render :: "app_state \<Rightarrow> view" where
  "render s =
     (if \<not> submitted s
      then EditingForm (\<not> truthy (trim (username s)) \<or> \<not> truthy_opt (image_st s))
      else PreviewCard (isDownloading s))"

text \<open>
  A configuration is the state with the number of file readers and of exports that are
  pending. An event is a handler call of the browser: a user action on a control that is
  on the page, or the completion of something pending. The username input has
  \<open>maxLength={20}\<close>, so the values it reports have at most 20 code units. Every handler
  sees the state of the latest render.
\<close>

record config =
  st :: app_state
  reading :: nat
  exporting :: nat

definition initial_config :: config where
  "initial_config = \<lparr> st = initial_state, reading = 0, exporting = 0 \<rparr>"

datatype event =
    UsernameChange jsstring
  | FileChange bool "file_obj option"
  | ReaderLoad "jsstring option"
  | ReaderError
  | FormSubmit
  | ResetClick
  | DownloadClick host
  | ExportSettled

fun is_form :: "view \<Rightarrow> bool" where
  "is_form (EditingForm b) = True"
| "is_form (PreviewCard b) = False"

fun enabled :: "config \<Rightarrow> event \<Rightarrow> bool" where
  "enabled c (UsernameChange v) = (is_form (render (st c)) \<and> length v \<le> 20)"
| "enabled c (FileChange rt fo) = is_form (render (st c))"
| "enabled c (ReaderLoad r) = (0 < reading c)"
| "enabled c ReaderError = (0 < reading c)"
| "enabled c FormSubmit = is_form (render (st c))"
| "enabled c ResetClick = (\<not> is_form (render (st c)))"
| "enabled c (DownloadClick h) = (render (st c) = PreviewCard False)"
| "enabled c ExportSettled = (0 < exporting c)"

fun is_read :: "effect \<Rightarrow> bool" where
  "is_read (ReadAsDataURL f) = True"
| "is_read e = False"

fun next_config :: "event \<Rightarrow> config \<Rightarrow> config" where
  "next_config (UsernameChange v) c = c\<lparr> st := snd (username_onChange v (st c)) \<rparr>"
| "next_config (FileChange rt fo) c =
     (let (tr, s') = handleImageUpload rt fo (st c)
      in c\<lparr> st := s', reading := reading c + length (filter is_read tr) \<rparr>)"
| "next_config (ReaderLoad r) c = c\<lparr> st := reader_onload r (st c), reading := reading c - 1 \<rparr>"
| "next_config ReaderError c = c\<lparr> st := snd (reader_onerror (st c)), reading := reading c - 1 \<rparr>"
| "next_config FormSubmit c = c\<lparr> st := handleSubmit (st c) \<rparr>"
| "next_config ResetClick c = c\<lparr> st := handleReset (st c) \<rparr>"
| "next_config (DownloadClick h) c =
     (let (s', pending) = downloadPfp_start h (st c)
      in c\<lparr> st := s', exporting := exporting c + (if pending then 1 else 0) \<rparr>)"
| "next_config ExportSettled c =
     c\<lparr> st := downloadPfp_resume (st c), exporting := exporting c - 1 \<rparr>"

inductive reachable :: "config \<Rightarrow> bool" where
  reachable_init: "reachable initial_config"
| reachable_step: "reachable c \<Longrightarrow> enabled c e \<Longrightarrow> reachable (next_config e c)"

text \<open>The invariant of the session: the preview is shown only for a valid username and image.\<close>

definition session_inv :: "app_state \<Rightarrow> bool" where
  "session_inv s =
     (submitted s \<longrightarrow>
        trim (username s) \<noteq> [] \<and> length (username s) \<le> 20 \<and>
        (\<exists>d. image_st s = Some d \<and> d \<noteq> []))"

text \<open>The guard of line 102 passes.\<close>

definition guard_ok :: "app_state \<Rightarrow> bool" where
  "guard_ok s = (truthy_opt (image_st s) \<and> truthy (trim (username s)))"

text \<open>
  The host makes the \<open>try\<close> block fail: no context, \<open>onerror\<close>, a throwing call among the
  eleven of \<open>onload\<close>, or a throwing \<open>toDataURL\<close>.
\<close>

definition export_fails :: "host \<Rightarrow> bool" where
  "export_fails h =
     (\<not> context_available h \<or> image_load h = None \<or>
      (case draw_fault h of None \<Rightarrow> False | Some k \<Rightarrow> k < 11) \<or> serialize_throws h)"

fun is_alert :: "effect \<Rightarrow> bool" where
  "is_alert (Alert m) = True"
| "is_alert e = False"

text \<open>
  What holds of every configuration the page can be in: the invariant of the session,
  strengthened until every event preserves it.
\<close>

definition stable_inv :: "config \<Rightarrow> bool" where
  "stable_inv c =
     (length (username (st c)) \<le> 20 \<and> image_st (st c) \<noteq> Some [] \<and> session_inv (st c) \<and>
      (isDownloading (st c) \<longrightarrow> submitted (st c) \<and> 0 < exporting c))"


section \<open>Properties\<close>

subsection \<open>Auxiliary facts\<close>

lemma trimEnd_Nil_iff: "trimEnd s = [] \<longleftrightarrow> (\<forall>c \<in> set s. isWhiteSpace c)"
  by (simp add: trimEnd_def dropWhile_eq_Nil_conv)

lemma trim_Nil_iff: "trim s = [] \<longleftrightarrow> (\<forall>c \<in> set s. isWhiteSpace c)"
proof
  assume "trim s = []"
  then have ws: "\<forall>c \<in> set (dropWhile isWhiteSpace s). isWhiteSpace c"
    by (simp add: trim_def trimStart_def trimEnd_Nil_iff)
  have "dropWhile isWhiteSpace s = []"
  proof (cases "dropWhile isWhiteSpace s")
    case Nil
    then show ?thesis .
  next
    case (Cons c cs)
    then have "\<not> isWhiteSpace c"
      using hd_dropWhile [of isWhiteSpace s] by simp
    moreover have "isWhiteSpace c"
      using ws Cons by simp
    ultimately show ?thesis by simp
  qed
  then show "\<forall>c \<in> set s. isWhiteSpace c"
    by (simp add: dropWhile_eq_Nil_conv)
next
  assume "\<forall>c \<in> set s. isWhiteSpace c"
  then have d: "dropWhile isWhiteSpace s = []"
    by (simp add: dropWhile_eq_Nil_conv)
  show "trim s = []"
    unfolding trim_def trimStart_def trimEnd_def d by simp
qed

lemma run_calls_None: "run_calls None xs c = Inr (fold exec_call xs c)"
  by (induction xs arbitrary: c) simp_all

lemma run_calls_Some:
  "run_calls (Some k) xs c = (if k < length xs then Inl HostException else Inr (fold exec_call xs c))"
proof (induction xs arbitrary: k c)
  case Nil
  then show ?case by simp
next
  case (Cons x xs)
  show ?case
  proof (cases k)
    case 0
    then show ?thesis by simp
  next
    case (Suc j)
    then show ?thesis using Cons [of j "exec_call x c"] by simp
  qed
qed

lemma length_onload_calls: "length (onload_calls img) = 11"
  by (simp add: onload_calls_def)

lemma processImage_fails_iff:
  "isl (processImage h u c) \<longleftrightarrow>
     image_load h = None \<or> (case draw_fault h of None \<Rightarrow> False | Some k \<Rightarrow> k < 11)"
  by (simp add: processImage_def run_calls_None run_calls_Some length_onload_calls
      split: option.splits prod.splits)

lemma download_try_fails_iff: "isl (snd (download_try h u n)) \<longleftrightarrow> export_fails h"
proof (cases "context_available h")
  case False
  then show ?thesis by (simp add: download_try_def export_fails_def)
next
  case True
  define c where "c = exec_call (ClearRect 0 0 200 200) (ctx (set_height 200 (set_width 200 createCanvas)))"
  show ?thesis
  proof (cases "processImage h u c")
    case (Inl e)
    then have "isl (processImage h u c)" by simp
    then have "export_fails h"
      by (auto simp add: processImage_fails_iff export_fails_def)
    moreover have "isl (snd (download_try h u n))"
      using True Inl by (simp add: download_try_def Let_def c_def)
    ultimately show ?thesis by simp
  next
    case (Inr c')
    then have "\<not> isl (processImage h u c)" by simp
    then have "export_fails h \<longleftrightarrow> serialize_throws h"
      using True by (auto simp add: processImage_fails_iff export_fails_def)
    moreover have "isl (snd (download_try h u n)) \<longleftrightarrow> serialize_throws h"
      using True Inr by (simp add: download_try_def Let_def c_def)
    ultimately show ?thesis by simp
  qed
qed

lemma download_try_alerts: "filter is_alert (fst (download_try h u n)) = []"
  by (simp add: download_try_def Let_def split: sum.splits)

lemma stable_inv_init: "stable_inv initial_config"
  by (simp add: stable_inv_def initial_config_def initial_state_def session_inv_def)

lemma stable_inv_step: "stable_inv c \<Longrightarrow> enabled c e \<Longrightarrow> stable_inv (next_config e c)"
proof (cases e)
  case (UsernameChange v)
  assume "stable_inv c" "enabled c e"
  then show ?thesis using UsernameChange
    by (auto simp add: stable_inv_def session_inv_def render_def username_onChange_def setUsername_def split: if_splits)
next
  case (FileChange rt fo)
  assume "stable_inv c" "enabled c e"
  then show ?thesis using FileChange
    by (auto simp add: stable_inv_def session_inv_def handleImageUpload_def split: option.splits if_splits)
next
  case (ReaderLoad r)
  assume "stable_inv c" "enabled c e"
  then show ?thesis using ReaderLoad
    by (auto simp add: stable_inv_def session_inv_def reader_onload_def setImage_def truthy_opt_def truthy_def split: option.splits if_splits)
next
  case ReaderError
  assume "stable_inv c" "enabled c e"
  then show ?thesis using ReaderError
    by (auto simp add: stable_inv_def session_inv_def reader_onerror_def)
next
  case FormSubmit
  assume "stable_inv c" "enabled c e"
  then show ?thesis using FormSubmit
    by (auto simp add: stable_inv_def session_inv_def handleSubmit_def setSubmitted_def render_def truthy_opt_def truthy_def split: option.splits if_splits)
next
  case ResetClick
  assume "stable_inv c" "enabled c e"
  then show ?thesis using ResetClick
    by (auto simp add: stable_inv_def session_inv_def handleReset_def setSubmitted_def setUsername_def setImage_def setIsDownloading_def)
next
  case (DownloadClick h)
  assume "stable_inv c" "enabled c e"
  then show ?thesis using DownloadClick
    by (auto simp add: stable_inv_def session_inv_def downloadPfp_start_def setIsDownloading_def render_def split: if_splits)
next
  case ExportSettled
  assume "stable_inv c" "enabled c e"
  then show ?thesis using ExportSettled
    by (auto simp add: stable_inv_def session_inv_def downloadPfp_resume_def setIsDownloading_def)
qed

lemma reachable_stable_inv: "reachable c \<Longrightarrow> stable_inv c"
  by (induction rule: reachable.induct) (simp_all add: stable_inv_init stable_inv_step)

lemma startsWith_prefix: "startsWith s p \<longleftrightarrow> prefix p s"
proof
  assume "startsWith s p"
  then have "s = p @ drop (length p) s"
    using append_take_drop_id [of "length p" s] by (simp add: startsWith_def)
  then show "prefix p s" by (rule prefixI)
next
  assume "prefix p s"
  then show "startsWith s p" by (auto simp add: startsWith_def prefix_def)
qed

lemma includes_str_sublist: "includes_str s sub \<longleftrightarrow> sublist sub s"
proof (induction s)
  case Nil
  then show ?case by auto
next
  case (Cons c cs)
  then show ?case by (simp add: startsWith_prefix sublist_Cons_right)
qed

lemma replace_all_map:
  "replace_all cls [r] u = map (\<lambda>c. if cls c then r else c) u"
  by (induction u) simp_all

lemma processImage_ok:
  assumes "image_load h = Some (w, ht)" "\<not> export_fails h"
  shows "processImage h u c = Inr (fold exec_call (onload_calls (ImageElement u w ht)) c)"
proof (cases "draw_fault h")
  case None
  then show ?thesis using assms by (simp add: processImage_def run_calls_None)
next
  case (Some k)
  then have "\<not> k < 11" using assms by (simp add: export_fails_def)
  then show ?thesis using assms Some
    by (simp add: processImage_def run_calls_Some length_onload_calls)
qed

lemma onload_surface:
  "saved c = [] \<Longrightarrow>
   painted (fold exec_call (onload_calls img) c) =
     painted c @
     [ImagePainted img 10 10 180 180 (clip_region (cur c) @ [[ArcSeg 100 100 90 Angle0 TwoMathPI]]),
      Stroked [ArcSeg 100 100 90 Angle0 TwoMathPI] (utf16 ''#0d0bda'') 6 (clip_region (cur c))]"
  by (simp add: onload_calls_def)

lemma download_try_ok:
  assumes "image_load h = Some (w, ht)" "\<not> export_fails h"
  shows "download_try h u n =
     ([SaveFile (fileName n)
         (Png 200 200
           [Cleared 0 0 200 200,
            ImagePainted (ImageElement u w ht) 10 10 180 180 [[ArcSeg 100 100 90 Angle0 TwoMathPI]],
            Stroked [ArcSeg 100 100 90 Angle0 TwoMathPI] (utf16 ''#0d0bda'') 6 []])], Inr ())"
proof -
  have ca: "context_available h" and ns: "\<not> serialize_throws h"
    using assms by (simp_all add: export_fails_def)
  define c where "c = exec_call (ClearRect 0 0 200 200) (ctx (set_height 200 (set_width 200 createCanvas)))"
  have sv: "saved c = []" and pt: "painted c = [Cleared 0 0 200 200]" and cl: "clip_region (cur c) = []"
    by (simp_all add: c_def set_height_def set_width_def createCanvas_def fresh_context_def)
  have p: "processImage h u c = Inr (fold exec_call (onload_calls (ImageElement u w ht)) c)"
    using assms by (rule processImage_ok)
  have dt: "download_try h u n =
      (case processImage h u c of
         Inl e \<Rightarrow> ([], Inl e)
       | Inr c' \<Rightarrow> ([SaveFile (fileName n) (Png 200 200 (painted c'))], Inr ()))"
    using ca ns
    by (simp add: download_try_def Let_def c_def toDataURL_def set_height_def set_width_def
        createCanvas_def split: sum.splits)
  show ?thesis
    by (simp add: dt p onload_surface [OF sv] pt cl)
qed

lemma download_try_names:
  "download_try h u v = (tr, r) \<Longrightarrow> SaveFile n p \<in> set tr \<Longrightarrow> n = fileName v"
  by (auto simp add: download_try_def Let_def split: sum.splits if_splits)

lemma download_catch_names: "SaveFile n p \<notin> set (download_catch r)"
  by (simp add: download_catch_def split: sum.splits)

lemma downloadPfp_two_turns:
  "snd (downloadPfp h s) =
     (case downloadPfp_start h s of (s1, pending) \<Rightarrow> if pending then downloadPfp_resume s1 else s1)"
  by (auto simp add: downloadPfp_def downloadPfp_start_def downloadPfp_resume_def truthy_opt_def
      setIsDownloading_def split: option.splits prod.splits)

lemma downloadPfp_alerts:
  "length (filter is_alert (fst (downloadPfp h s))) = (if guard_ok s \<and> export_fails h then 1 else 0)"
proof (cases "guard_ok s")
  case False
  then show ?thesis
    by (auto simp add: downloadPfp_def guard_ok_def truthy_opt_def split: option.splits)
next
  case True
  then obtain d where d: "image_st s = Some d" "truthy d" "truthy (trim (username s))"
    by (auto simp add: guard_ok_def truthy_opt_def split: option.splits)
  obtain tr r where tr: "download_try h d (username s) = (tr, r)"
    by (cases "download_try h d (username s)")
  have a: "filter is_alert tr = []"
    using download_try_alerts [of h d "username s"] tr by simp
  have f: "isl r \<longleftrightarrow> export_fails h"
    using download_try_fails_iff [of h d "username s"] tr by simp
  show ?thesis
    using True d tr a f
    by (cases r) (simp_all add: downloadPfp_def download_catch_def)
qed

lemma reachable_example:
  "reachable \<lparr> st = \<lparr> username = utf16 ''alice'', image_st = Some (utf16 ''data:image/png;base64,AA==''),
                      submitted = True, isDownloading = False \<rparr>,
                reading = 0, exporting = 0 \<rparr>"
proof -
  let ?d = "utf16 ''data:image/png;base64,AA==''"
  let ?f = "\<lparr> file_type = utf16 ''image/png'', file_bytes = [] \<rparr>"
  have tr: "trim (utf16 ''alice'') \<noteq> []"
    by (simp add: trim_def trimStart_def trimEnd_def isWhiteSpace_def utf16_def)
  have d: "?d \<noteq> []" by (simp add: utf16_def)
  have r0: "reachable \<lparr> st = \<lparr> username = [], image_st = None, submitted = False,
                                isDownloading = False \<rparr>, reading = 0, exporting = 0 \<rparr>"
    using reachable_init by (simp add: initial_config_def initial_state_def)
  have r1: "reachable \<lparr> st = \<lparr> username = utf16 ''alice'', image_st = None, submitted = False,
                                isDownloading = False \<rparr>, reading = 0, exporting = 0 \<rparr>"
    using reachable_step [OF r0, of "UsernameChange (utf16 ''alice'')"]
    by (simp add: render_def username_onChange_def setUsername_def utf16_def)
  have r2: "reachable \<lparr> st = \<lparr> username = utf16 ''alice'', image_st = None, submitted = False,
                                isDownloading = False \<rparr>, reading = 1, exporting = 0 \<rparr>"
    using reachable_step [OF r1, of "FileChange False (Some ?f)"]
    by (simp add: render_def handleImageUpload_def startsWith_def utf16_def)
  have r3: "reachable \<lparr> st = \<lparr> username = utf16 ''alice'', image_st = Some ?d, submitted = False,
                                isDownloading = False \<rparr>, reading = 0, exporting = 0 \<rparr>"
    using reachable_step [OF r2, of "ReaderLoad (Some ?d)"] d
    by (simp add: reader_onload_def setImage_def truthy_opt_def truthy_def)
  show ?thesis
    using reachable_step [OF r3, of FormSubmit] d tr
    by (simp add: render_def handleSubmit_def setSubmitted_def truthy_opt_def truthy_def)
qed


subsection \<open>The claims\<close>

text \<open>
  C1. When the context is there, the image loads (whatever its natural size \<open>w\<close> by \<open>ht\<close>)
  and no call of the host throws, \<open>downloadPfp\<close> saves one file, whose surface is 200 by
  200 and holds, in this order: the cleared rectangle; the image, drawn into the square
  of side 180 at (10, 10) under the clip region of the circle of radius 90 around
  (100, 100); and the stroke of that same circle with line width 6 in \<open>#0d0bda\<close>, under the
  empty clip region, since \<open>restore\<close> came between \<open>drawImage\<close> and \<open>stroke\<close> and gave back
  the drawing state that \<open>save\<close> had kept.
\<close>

theorem export_composite:
  "image_st s = Some d \<Longrightarrow> guard_ok s \<Longrightarrow> image_load h = Some (w, ht) \<Longrightarrow> \<not> export_fails h \<Longrightarrow>
   downloadPfp h s =
     ([SetIsDownloading True,
       SaveFile (fileName (username s))
         (Png 200 200
           [Cleared 0 0 200 200,
            ImagePainted (ImageElement d w ht) 10 10 180 180 [[ArcSeg 100 100 90 Angle0 TwoMathPI]],
            Stroked [ArcSeg 100 100 90 Angle0 TwoMathPI] (utf16 ''#0d0bda'') 6 []]),
       SetIsDownloading False],
      s\<lparr> isDownloading := False \<rparr>)"
  by (simp add: downloadPfp_def guard_ok_def truthy_opt_def download_try_ok download_catch_def
      setIsDownloading_def)

text \<open>A 640 by 480 image and the username \<open>"alice"\<close>.\<close>

theorem export_composite_witness:
  "image_st \<lparr> username = utf16 ''alice'', image_st = Some (utf16 ''data:image/jpeg;base64,AA==''),
              submitted = True, isDownloading = False \<rparr> = Some (utf16 ''data:image/jpeg;base64,AA=='') \<and>
   guard_ok \<lparr> username = utf16 ''alice'', image_st = Some (utf16 ''data:image/jpeg;base64,AA==''),
              submitted = True, isDownloading = False \<rparr> \<and>
   image_load \<lparr> context_available = True, image_load = Some (640, 480), draw_fault = None,
                serialize_throws = False \<rparr> = Some (640, 480) \<and>
   \<not> export_fails \<lparr> context_available = True, image_load = Some (640, 480), draw_fault = None,
                     serialize_throws = False \<rparr> \<and>
   downloadPfp \<lparr> context_available = True, image_load = Some (640, 480), draw_fault = None,
                 serialize_throws = False \<rparr>
               \<lparr> username = utf16 ''alice'', image_st = Some (utf16 ''data:image/jpeg;base64,AA==''),
                 submitted = True, isDownloading = False \<rparr> =
     ([SetIsDownloading True,
       SaveFile (utf16 ''alice-octrafied-pfp.png'')
         (Png 200 200
           [Cleared 0 0 200 200,
            ImagePainted (ImageElement (utf16 ''data:image/jpeg;base64,AA=='') 640 480) 10 10 180 180
              [[ArcSeg 100 100 90 Angle0 TwoMathPI]],
            Stroked [ArcSeg 100 100 90 Angle0 TwoMathPI] (utf16 ''#0d0bda'') 6 []]),
       SetIsDownloading False],
      \<lparr> username = utf16 ''alice'', image_st = Some (utf16 ''data:image/jpeg;base64,AA==''),
        submitted = True, isDownloading = False \<rparr>)"
proof -
  let ?s = "\<lparr> username = utf16 ''alice'', image_st = Some (utf16 ''data:image/jpeg;base64,AA==''),
              submitted = True, isDownloading = False \<rparr>"
  let ?h = "\<lparr> context_available = True, image_load = Some (640, 480), draw_fault = None,
              serialize_throws = False \<rparr>"
  have i: "image_st ?s = Some (utf16 ''data:image/jpeg;base64,AA=='')" by simp
  have g: "guard_ok ?s"
    by (simp add: guard_ok_def truthy_opt_def truthy_def trim_def trimStart_def trimEnd_def
        isWhiteSpace_def utf16_def)
  have l: "image_load ?h = Some (640, 480)" by simp
  have f: "\<not> export_fails ?h" by (simp add: export_fails_def)
  have n: "fileName (utf16 ''alice'') = utf16 ''alice-octrafied-pfp.png''"
    by (simp add: fileName_def alnum_def utf16_def)
  show ?thesis
    using export_composite [OF i g l f] g f n by simp
qed

text \<open>
  C2. The file name is the username with every code unit outside \<open>[a-zA-Z0-9]\<close> replaced
  by \<open>_\<close> (code unit 0x5F), followed by \<open>-octrafied-pfp.png\<close>; \<open>"ray@0x!"\<close> gives
  \<open>"ray_0x_-octrafied-pfp.png"\<close> and \<open>"alice"\<close> gives \<open>"alice-octrafied-pfp.png"\<close>; and every
  file that \<open>downloadPfp\<close> saves has the file name of the stored username.
\<close>

theorem fileName_sanitized:
  "fileName u = map (\<lambda>c. if alnum c then c else 0x5F) u @ utf16 ''-octrafied-pfp.png'' \<and>
   fileName (utf16 ''ray@0x!'') = utf16 ''ray_0x_-octrafied-pfp.png'' \<and>
   fileName (utf16 ''alice'') = utf16 ''alice-octrafied-pfp.png'' \<and>
   (\<forall>n p. SaveFile n p \<in> set (fst (downloadPfp h s)) \<longrightarrow> n = fileName (username s))"
proof (intro conjI allI impI)
  have "utf16 ''_'' = [0x5F]" by (simp add: utf16_def)
  then show "fileName u = map (\<lambda>c. if alnum c then c else 0x5F) u @ utf16 ''-octrafied-pfp.png''"
    by (simp add: fileName_def replace_all_map)
next
  show "fileName (utf16 ''ray@0x!'') = utf16 ''ray_0x_-octrafied-pfp.png''"
    by (simp add: fileName_def alnum_def utf16_def)
next
  show "fileName (utf16 ''alice'') = utf16 ''alice-octrafied-pfp.png''"
    by (simp add: fileName_def alnum_def utf16_def)
next
  fix n p
  assume "SaveFile n p \<in> set (fst (downloadPfp h s))"
  then show "n = fileName (username s)"
    by (auto simp add: downloadPfp_def download_catch_names split: option.splits if_splits prod.splits
        dest: download_try_names)
qed

text \<open>An export with the username \<open>"ray@0x!"\<close> saves a file of that name.\<close>

theorem fileName_sanitized_witness:
  "SaveFile (fileName (utf16 ''ray@0x!''))
      (Png 200 200
         [Cleared 0 0 200 200,
          ImagePainted (ImageElement (utf16 ''data:image/png;base64,AA=='') 64 32) 10 10 180 180
            [[ArcSeg 100 100 90 Angle0 TwoMathPI]],
          Stroked [ArcSeg 100 100 90 Angle0 TwoMathPI] (utf16 ''#0d0bda'') 6 []])
     \<in> set (fst (downloadPfp
          \<lparr> context_available = True, image_load = Some (64, 32), draw_fault = None,
            serialize_throws = False \<rparr>
          \<lparr> username = utf16 ''ray@0x!'', image_st = Some (utf16 ''data:image/png;base64,AA==''),
            submitted = True, isDownloading = False \<rparr>)) \<and>
   fileName (utf16 ''ray@0x!'') = utf16 ''ray_0x_-octrafied-pfp.png''"
proof -
  let ?s = "\<lparr> username = utf16 ''ray@0x!'', image_st = Some (utf16 ''data:image/png;base64,AA==''),
              submitted = True, isDownloading = False \<rparr>"
  let ?h = "\<lparr> context_available = True, image_load = Some (64, 32), draw_fault = None,
              serialize_throws = False \<rparr>"
  have t: "truthy (utf16 ''data:image/png;base64,AA=='')" "truthy (trim (utf16 ''ray@0x!''))"
    by (simp_all add: truthy_def trim_def trimStart_def trimEnd_def isWhiteSpace_def utf16_def)
  have l: "image_load ?h = Some (64, 32)" by simp
  have f: "\<not> export_fails ?h" by (simp add: export_fails_def)
  have mem: "SaveFile (fileName (utf16 ''ray@0x!''))
      (Png 200 200
         [Cleared 0 0 200 200,
          ImagePainted (ImageElement (utf16 ''data:image/png;base64,AA=='') 64 32) 10 10 180 180
            [[ArcSeg 100 100 90 Angle0 TwoMathPI]],
          Stroked [ArcSeg 100 100 90 Angle0 TwoMathPI] (utf16 ''#0d0bda'') 6 []])
     \<in> set (fst (downloadPfp ?h ?s))"
    using t by (simp add: downloadPfp_def download_try_ok [OF l f])
  show ?thesis
    using fileName_sanitized [of "utf16 ''ray@0x!''" ?h ?s] mem by blast
qed

text \<open>
  C3. \<open>handleSubmit\<close> sets \<open>submitted\<close> exactly when the trim of the stored username is not
  empty and an image is stored; otherwise, and so for a username of white space only, it
  returns the state as it was. An image is a string that is not empty: \<open>reader.onload\<close>
  stores nothing else, and the cell of no reachable configuration holds the empty string.
\<close>

theorem handleSubmit_iff:
  "image_st s \<noteq> Some [] \<Longrightarrow>
     handleSubmit s =
       (if trim (username s) \<noteq> [] \<and> image_st s \<noteq> None then s\<lparr> submitted := True \<rparr> else s) \<and>
     (\<not> submitted s \<longrightarrow>
        (submitted (handleSubmit s) \<longleftrightarrow> trim (username s) \<noteq> [] \<and> image_st s \<noteq> None)) \<and>
     ((\<forall>c \<in> set (username s). isWhiteSpace c) \<longrightarrow> handleSubmit s = s)"
  by (cases "image_st s")
     (auto simp add: handleSubmit_def setSubmitted_def truthy_def truthy_opt_def trim_Nil_iff)

text \<open>With the username \<open>"alice"\<close> and an image, the form goes to the preview.\<close>

theorem handleSubmit_iff_witness:
  "image_st \<lparr> username = utf16 ''alice'', image_st = Some (utf16 ''data:image/png;base64,AA==''),
              submitted = False, isDownloading = False \<rparr> \<noteq> Some [] \<and>
   handleSubmit \<lparr> username = utf16 ''alice'', image_st = Some (utf16 ''data:image/png;base64,AA==''),
                  submitted = False, isDownloading = False \<rparr>
     = \<lparr> username = utf16 ''alice'', image_st = Some (utf16 ''data:image/png;base64,AA==''),
         submitted = True, isDownloading = False \<rparr>"
proof -
  let ?s = "\<lparr> username = utf16 ''alice'', image_st = Some (utf16 ''data:image/png;base64,AA==''),
              submitted = False, isDownloading = False \<rparr>"
  have wf: "image_st ?s \<noteq> Some []" by (simp add: utf16_def)
  have tr: "trim (utf16 ''alice'') \<noteq> []"
    by (simp add: trim_def trimStart_def trimEnd_def isWhiteSpace_def utf16_def)
  show ?thesis
    using handleSubmit_iff [OF wf] wf tr by simp
qed

text \<open>
  C4. For a file whose type does not start with \<open>image/\<close>, \<open>handleImageUpload\<close> alerts
  "Please select a valid image file" and does nothing else: the state is returned as it
  was and no reader is started, so that no \<open>onload\<close> follows from this upload.
\<close>

theorem handleImageUpload_rejects:
  "\<not> startsWith (file_type f) (utf16 ''image/'') \<Longrightarrow>
     handleImageUpload rt (Some f) s = ([Alert (utf16 ''Please select a valid image file'')], s) \<and>
     next_config (FileChange rt (Some f)) c = c"
  by (simp add: handleImageUpload_def)

text \<open>A file of type \<open>text/plain\<close>.\<close>

theorem handleImageUpload_rejects_witness:
  "\<not> startsWith (file_type \<lparr> file_type = utf16 ''text/plain'', file_bytes = [] \<rparr>) (utf16 ''image/'') \<and>
   handleImageUpload False (Some \<lparr> file_type = utf16 ''text/plain'', file_bytes = [] \<rparr>) initial_state
     = ([Alert (utf16 ''Please select a valid image file'')], initial_state)"
proof -
  have ns: "\<not> startsWith (file_type \<lparr> file_type = utf16 ''text/plain'', file_bytes = [] \<rparr>) (utf16 ''image/'')"
    by (simp add: startsWith_def utf16_def)
  show ?thesis
    using handleImageUpload_rejects [OF ns, of False initial_state] ns by simp
qed

text \<open>
  C5. From every reachable configuration, \<open>downloadPfp\<close> run to its end leaves
  \<open>isDownloading\<close> false, whatever the host does, and its trace has one alert when the
  guard passes and the \<open>try\<close> block fails, and none otherwise. With other handlers running
  in between: whenever \<open>isDownloading\<close> is true an export is pending, and the completion
  of a pending export, which is the \<open>finally\<close> block, leaves \<open>isDownloading\<close> false.
\<close>

theorem export_never_stuck:
  "reachable c \<Longrightarrow>
     \<not> isDownloading (snd (downloadPfp h (st c))) \<and>
     length (filter is_alert (fst (downloadPfp h (st c)))) =
       (if guard_ok (st c) \<and> export_fails h then 1 else 0) \<and>
     (isDownloading (st c) \<longrightarrow> enabled c ExportSettled) \<and>
     (enabled c ExportSettled \<longrightarrow> \<not> isDownloading (st (next_config ExportSettled c)))"
proof -
  assume "reachable c"
  then have inv: "stable_inv c" by (rule reachable_stable_inv)
  have "\<not> isDownloading (snd (downloadPfp h (st c)))"
    using inv
    by (auto simp add: downloadPfp_def stable_inv_def session_inv_def setIsDownloading_def
        truthy_def split: option.splits prod.splits)
  moreover have "isDownloading (st c) \<longrightarrow> enabled c ExportSettled"
    using inv by (simp add: stable_inv_def)
  moreover have "\<not> isDownloading (st (next_config ExportSettled c))"
    by (simp add: downloadPfp_resume_def setIsDownloading_def)
  ultimately show ?thesis
    by (simp add: downloadPfp_alerts)
qed

text \<open>
  A click on the download button in the preview of \<open>"alice"\<close>, with an image that fails to
  load: the flag is true while the export is pending, false once it has settled, and
  there is one alert.
\<close>

theorem export_never_stuck_witness:
  "reachable
     (next_config (DownloadClick \<lparr> context_available = True, image_load = None, draw_fault = None,
                                  serialize_throws = False \<rparr>)
        \<lparr> st = \<lparr> username = utf16 ''alice'', image_st = Some (utf16 ''data:image/png;base64,AA==''),
                  submitted = True, isDownloading = False \<rparr>,
            reading = 0, exporting = 0 \<rparr>) \<and>
   isDownloading (st
     (next_config (DownloadClick \<lparr> context_available = True, image_load = None, draw_fault = None,
                                  serialize_throws = False \<rparr>)
        \<lparr> st = \<lparr> username = utf16 ''alice'', image_st = Some (utf16 ''data:image/png;base64,AA==''),
                  submitted = True, isDownloading = False \<rparr>,
            reading = 0, exporting = 0 \<rparr>)) \<and>
   \<not> isDownloading (st (next_config ExportSettled
     (next_config (DownloadClick \<lparr> context_available = True, image_load = None, draw_fault = None,
                                  serialize_throws = False \<rparr>)
        \<lparr> st = \<lparr> username = utf16 ''alice'', image_st = Some (utf16 ''data:image/png;base64,AA==''),
                  submitted = True, isDownloading = False \<rparr>,
            reading = 0, exporting = 0 \<rparr>))) \<and>
   length (filter is_alert (fst (downloadPfp
       \<lparr> context_available = True, image_load = None, draw_fault = None, serialize_throws = False \<rparr>
       \<lparr> username = utf16 ''alice'', image_st = Some (utf16 ''data:image/png;base64,AA==''),
         submitted = True, isDownloading = False \<rparr>))) = 1"
proof -
  let ?s = "\<lparr> username = utf16 ''alice'', image_st = Some (utf16 ''data:image/png;base64,AA==''),
              submitted = True, isDownloading = False \<rparr>"
  let ?c = "\<lparr> st = ?s, reading = 0, exporting = 0 \<rparr>"
  let ?h = "\<lparr> context_available = True, image_load = None, draw_fault = None,
              serialize_throws = False \<rparr>"
  have g: "guard_ok ?s"
    by (simp add: guard_ok_def truthy_opt_def truthy_def trim_def trimStart_def trimEnd_def
        isWhiteSpace_def utf16_def)
  have f: "export_fails ?h" by (simp add: export_fails_def)
  have r: "reachable ?c" by (rule reachable_example)
  have e: "enabled ?c (DownloadClick ?h)" by (simp add: render_def)
  have r': "reachable (next_config (DownloadClick ?h) ?c)"
    using r e by (rule reachable_step)
  have d: "isDownloading (st (next_config (DownloadClick ?h) ?c))"
    using g by (simp add: downloadPfp_start_def guard_ok_def setIsDownloading_def)
  show ?thesis
    using export_never_stuck [OF r', of ?h] export_never_stuck [OF r, of ?h] r' d g f by simp
qed

text \<open>
  C6. \<open>handleReset\<close> takes every state to the default state (empty username, no image,
  not submitted, not downloading), and applying it twice gives what applying it once gives.
\<close>

theorem handleReset_default_idempotent:
  "handleReset s = initial_state \<and> handleReset (handleReset s) = handleReset s"
  by (simp add: handleReset_def initial_state_def setIsDownloading_def setImage_def
      setUsername_def setSubmitted_def)

text \<open>
  C7. In every reachable configuration the invariant of the session holds: \<open>submitted\<close>
  only with a username of at most 20 code units whose trim is not empty and with an
  image that is not empty. Every event that the page offers in a reachable configuration
  (username change, file change, reader completion, submit, reset, download click, export
  completion) leads to a state where it holds again. The inputs are rendered only while
  \<open>submitted\<close> is false, which is why a username change cannot break it.
\<close>

theorem session_invariant:
  "reachable c \<Longrightarrow>
     session_inv (st c) \<and> (\<forall>e. enabled c e \<longrightarrow> session_inv (st (next_config e c)))"
  using reachable_stable_inv [of c] reachable_stable_inv [OF reachable_step, of c]
  by (simp add: stable_inv_def)

text \<open>The preview of \<open>"alice"\<close> is reachable and satisfies the invariant, as does the state after reset.\<close>

theorem session_invariant_witness:
  "reachable \<lparr> st = \<lparr> username = utf16 ''alice'', image_st = Some (utf16 ''data:image/png;base64,AA==''),
                      submitted = True, isDownloading = False \<rparr>,
                reading = 0, exporting = 0 \<rparr> \<and>
   submitted \<lparr> username = utf16 ''alice'', image_st = Some (utf16 ''data:image/png;base64,AA==''),
               submitted = True, isDownloading = False \<rparr> \<and>
   session_inv \<lparr> username = utf16 ''alice'', image_st = Some (utf16 ''data:image/png;base64,AA==''),
                 submitted = True, isDownloading = False \<rparr> \<and>
   enabled \<lparr> st = \<lparr> username = utf16 ''alice'', image_st = Some (utf16 ''data:image/png;base64,AA==''),
                    submitted = True, isDownloading = False \<rparr>,
              reading = 0, exporting = 0 \<rparr> ResetClick \<and>
   session_inv (st (next_config ResetClick
      \<lparr> st = \<lparr> username = utf16 ''alice'', image_st = Some (utf16 ''data:image/png;base64,AA==''),
                submitted = True, isDownloading = False \<rparr>,
          reading = 0, exporting = 0 \<rparr>))"
proof -
  let ?c = "\<lparr> st = \<lparr> username = utf16 ''alice'', image_st = Some (utf16 ''data:image/png;base64,AA==''),
                     submitted = True, isDownloading = False \<rparr>,
               reading = 0, exporting = 0 \<rparr>"
  have r: "reachable ?c" by (rule reachable_example)
  have e: "enabled ?c ResetClick" by (simp add: render_def)
  have a: "session_inv (st ?c)"
    using session_invariant [OF r] by blast
  have b: "session_inv (st (next_config ResetClick ?c))"
    using session_invariant [OF r] e by blast
  have a': "session_inv \<lparr> username = utf16 ''alice'',
      image_st = Some (utf16 ''data:image/png;base64,AA==''), submitted = True, isDownloading = False \<rparr>"
    using a by simp
  have s: "submitted \<lparr> username = utf16 ''alice'',
      image_st = Some (utf16 ''data:image/png;base64,AA==''), submitted = True, isDownloading = False \<rparr>"
    by simp
  show ?thesis
    using r s a' e b by blast
qed

text \<open>
  C8. The \<open>onChange\<close> of the username input stores any value of at most 20 code units
  as it is, with no alert and no error, and leaves the other cells alone; trimming
  happens in \<open>handleSubmit\<close>, which reads \<open>trim\<close> of the cell and does not write it.
\<close>

theorem setUsername_verbatim:
  "length v \<le> 20 \<Longrightarrow>
     username_onChange v s = ([], s\<lparr> username := v \<rparr>) \<and>
     username (handleSubmit (snd (username_onChange v s))) = v"
  by (simp add: username_onChange_def setUsername_def handleSubmit_def setSubmitted_def)

text \<open>The username \<open>" bob "\<close> is stored with its two spaces, although its trim is \<open>"bob"\<close>.\<close>

theorem setUsername_verbatim_witness:
  "length (utf16 '' bob '') \<le> 20 \<and>
   username_onChange (utf16 '' bob '') initial_state
     = ([], initial_state\<lparr> username := utf16 '' bob '' \<rparr>) \<and>
   username (handleSubmit (snd (username_onChange (utf16 '' bob '') initial_state))) = utf16 '' bob '' \<and>
   trim (utf16 '' bob '') = utf16 ''bob''"
proof -
  have len: "length (utf16 '' bob '') \<le> 20" by (simp add: utf16_def)
  have tr: "trim (utf16 '' bob '') = utf16 ''bob''"
    by (simp add: trim_def trimStart_def trimEnd_def isWhiteSpace_def utf16_def)
  show ?thesis
    using setUsername_verbatim [OF len, of initial_state] len tr by blast
qed

text \<open>
  C9. An error event whose message contains \<open>sender\<close> or \<open>wallet\<close> leaves \<open>hasError\<close> as
  it was and logs nothing. For any other message \<open>hasError\<close> becomes true, the boundary
  renders the fallback, and the button of the fallback brings the children back.
\<close>

theorem error_boundary_filter:
  "(sublist (utf16 ''sender'') m \<or> sublist (utf16 ''wallet'') m \<longrightarrow> handleError m he = ([], he)) \<and>
   (\<not> sublist (utf16 ''sender'') m \<and> \<not> sublist (utf16 ''wallet'') m \<longrightarrow>
      snd (handleError m he) = True \<and>
      render_boundary (snd (handleError m he)) = Fallback \<and>
      render_boundary (tryAgain_onClick (snd (handleError m he))) = Children)"
  by (simp add: handleError_def includes_str_sublist render_boundary_def tryAgain_onClick_def)

text \<open>A message of a wallet provider is ignored; \<open>"x is not a function"\<close> brings the fallback.\<close>

theorem error_boundary_filter_witness:
  "sublist (utf16 ''wallet'') (utf16 ''wallet provider not found'') \<and>
   handleError (utf16 ''wallet provider not found'') False = ([], False) \<and>
   \<not> sublist (utf16 ''sender'') (utf16 ''x is not a function'') \<and>
   \<not> sublist (utf16 ''wallet'') (utf16 ''x is not a function'') \<and>
   render_boundary (snd (handleError (utf16 ''x is not a function'') False)) = Fallback"
proof -
  have w: "sublist (utf16 ''wallet'') (utf16 ''wallet provider not found'')"
    unfolding includes_str_sublist [symmetric] by (simp add: startsWith_def utf16_def)
  have n1: "\<not> sublist (utf16 ''sender'') (utf16 ''x is not a function'')"
    unfolding includes_str_sublist [symmetric] by (simp add: startsWith_def utf16_def)
  have n2: "\<not> sublist (utf16 ''wallet'') (utf16 ''x is not a function'')"
    unfolding includes_str_sublist [symmetric] by (simp add: startsWith_def utf16_def)
  show ?thesis
    using error_boundary_filter [of "utf16 ''wallet provider not found''" False]
      error_boundary_filter [of "utf16 ''x is not a function''" False] w n1 n2
    by blast
qed

text \<open>
  C10. When no image is stored or the trim of the username is empty, \<open>downloadPfp\<close>
  returns at its guard: the state is as it was, the trace is empty (no setter call of
  \<open>isDownloading\<close>, no alert, no file saved), and no export is left pending.
\<close>

theorem downloadPfp_guard:
  "image_st s = None \<or> trim (username s) = [] \<Longrightarrow>
     downloadPfp h s = ([], s) \<and> downloadPfp_start h s = (s, False)"
  by (auto simp add: downloadPfp_def downloadPfp_start_def truthy_def truthy_opt_def split: option.splits)

text \<open>The default state has neither username nor image.\<close>

theorem downloadPfp_guard_witness:
  "(image_st initial_state = None \<or> trim (username initial_state) = []) \<and>
   downloadPfp \<lparr> context_available = True, image_load = Some (64, 32), draw_fault = None,
                 serialize_throws = False \<rparr> initial_state = ([], initial_state) \<and>
   downloadPfp_start \<lparr> context_available = True, image_load = Some (64, 32), draw_fault = None,
                       serialize_throws = False \<rparr> initial_state = (initial_state, False)"
proof -
  have g: "image_st initial_state = None \<or> trim (username initial_state) = []"
    by (simp add: initial_state_def)
  show ?thesis
    using downloadPfp_guard [OF g] g by blast
qed

end
